theory Spec2Isabelle
  imports Main "HOL-Library.Word" "HOL-Library.Sublist"
begin

section \<open>The periodic sender of \<^verbatim>\<open>sender.py\<close>\<close>

text \<open>
  The script opens one TCP socket inside a \<^verbatim>\<open>with\<close> block, connects it to
  \<^verbatim>\<open>(HOST, PORT)\<close>, and then loops forever: build a message from the counter and the
  wall clock, \<^verbatim>\<open>sendall\<close> its encoding, print it, increment the counter, sleep one second.

  The model is a function from what the environment does (the result of \<^verbatim>\<open>connect\<close>, and
  for each loop iteration the clock reading and what happens in that iteration) to the
  list of calls the script makes, the value of \<^verbatim>\<open>counter\<close>, and whether the script is
  still in its loop or has left the \<^verbatim>\<open>with\<close> block through an exception.
  Creating the socket and printing to standard output are taken to succeed.
\<close>

subsection \<open>Text and bytes\<close>

text \<open>
  A Python \<^verbatim>\<open>str\<close> is modelled as a \<^typ>\<open>string\<close> whose characters are the code points
  0..255; \<^verbatim>\<open>bytes\<close> are lists of 8-bit words. \<^verbatim>\<open>str.encode()\<close> is UTF-8: a code point
  below 128 is one byte, one in 128..255 is two bytes.
\<close>

type_synonym byte = "8 word"

definition utf8_char :: "char \<Rightarrow> byte list" where
  "utf8_char c =
     (let n = (of_char c :: nat) in
      if n < 128 then [of_nat n]
      else [of_nat (192 + n div 64), of_nat (128 + n mod 64)])"

definition encode :: "string \<Rightarrow> byte list" where
  "encode s = concat (map utf8_char s)"

text \<open>
  Formatting an \<^verbatim>\<open>int\<close> in an f-string is \<^verbatim>\<open>str(int)\<close>: the decimal digits, most
  significant first, after a minus sign for a negative value. Python integers are
  unbounded, hence \<^typ>\<open>int\<close>. The interpreter's configurable limit on the number of
  digits of such a conversion (4300 by default in recent versions) is not part of the
  function.
\<close>

definition digit_char :: "nat \<Rightarrow> char" where
  "digit_char d = char_of (48 + d)"

fun digits10 :: "nat \<Rightarrow> string" where
  "digits10 n =
     (if n < 10 then [digit_char n]
      else digits10 (n div 10) @ [digit_char (n mod 10)])"

declare digits10.simps [simp del]

definition str_int :: "int \<Rightarrow> string" where
  "str_int i = (if i < 0 then CHR ''-'' # digits10 (nat (- i)) else digits10 (nat i))"




subsection \<open>Module constants\<close>

definition HOST :: string where
  "HOST = ''127.0.0.1''"

definition PORT :: int where
  "PORT = 6000"

subsection \<open>Calls, exceptions and the environment\<close>

text \<open>
  The calls the script makes on the outside world, in the order it makes them.
  \<open>EvConnect\<close> records the call of \<^verbatim>\<open>s.connect\<close> whatever its result; \<open>EvSendAll\<close> is a
  \<^verbatim>\<open>s.sendall\<close> that returned, \<open>EvSendFailed\<close> one that raised; \<open>EvSleep\<close> is a
  \<^verbatim>\<open>time.sleep\<close> that returned, with the seconds asked for; \<open>EvClose\<close> is the close of
  the socket by the \<^verbatim>\<open>with\<close> block.
\<close>

datatype event =
    EvSocket
  | EvConnect string int
  | EvPrint string
  | EvSendAll "byte list"
  | EvSendFailed "byte list"
  | EvSleep nat
  | EvClose

text \<open>
  The exceptions that end the script, under the names of the specification:
  a failed \<^verbatim>\<open>connect\<close>, a failed \<^verbatim>\<open>sendall\<close>, and the interrupt from outside.
\<close>

datatype error = ConnectionError | WriteError | KeyboardInterrupt

datatype status = Running | Raised error

datatype connect_result = Connected | ConnectFails | ConnectInterrupted

text \<open>
  The five statements of the loop body. An interrupt is delivered at one of them; that
  statement then has no effect, the ones before it have run.
\<close>

datatype stmt = AtBuild | AtSendAll | AtPrint | AtIncrement | AtSleep

datatype outcome = Completes | SendFails | Interrupted stmt

record 't env =
  connect_result :: connect_result
  ticks :: "('t \<times> outcome) list"

record 'c run =
  trace :: "event list"
  counter_val :: 'c
  status :: status

subsection \<open>The loop and the script\<close>

text \<open>
  \<^verbatim>\<open>f"Hello {counter} at {time.time()}"\<close>. The rendering of the clock reading is the
  parameter \<open>fstr\<close>; the script is the instance where it is \<open>float_repr\<close>.
\<close>

definition message :: "('t \<Rightarrow> string) \<Rightarrow> int \<Rightarrow> 't \<Rightarrow> string" where
  "message fstr counter now = ''Hello '' @ str_int counter @ '' at '' @ fstr now"

text \<open>
  \<^verbatim>\<open>while True\<close>: one equation per way an iteration can go. The list holds the
  iterations the environment has let happen so far; when it is used up the script is
  still in the loop (\<open>Running\<close>).
\<close>

fun loop :: "('t \<Rightarrow> string) \<Rightarrow> int \<Rightarrow> ('t \<times> outcome) list \<Rightarrow> int run" where
  "loop fstr counter [] = \<lparr>trace = [], counter_val = counter, status = Running\<rparr>"
| "loop fstr counter ((now, Interrupted AtBuild) # rest) =
     \<lparr>trace = [], counter_val = counter, status = Raised KeyboardInterrupt\<rparr>"
| "loop fstr counter ((now, Interrupted AtSendAll) # rest) =
     \<lparr>trace = [], counter_val = counter, status = Raised KeyboardInterrupt\<rparr>"
| "loop fstr counter ((now, SendFails) # rest) =
     \<lparr>trace = [EvSendFailed (encode (message fstr counter now))],
      counter_val = counter, status = Raised WriteError\<rparr>"
| "loop fstr counter ((now, Interrupted AtPrint) # rest) =
     \<lparr>trace = [EvSendAll (encode (message fstr counter now))],
      counter_val = counter, status = Raised KeyboardInterrupt\<rparr>"
| "loop fstr counter ((now, Interrupted AtIncrement) # rest) =
     \<lparr>trace = [EvSendAll (encode (message fstr counter now)),
               EvPrint (''Sent: '' @ message fstr counter now)],
      counter_val = counter, status = Raised KeyboardInterrupt\<rparr>"
| "loop fstr counter ((now, Interrupted AtSleep) # rest) =
     \<lparr>trace = [EvSendAll (encode (message fstr counter now)),
               EvPrint (''Sent: '' @ message fstr counter now)],
      counter_val = counter + 1, status = Raised KeyboardInterrupt\<rparr>"
| "loop fstr counter ((now, Completes) # rest) =
     (let r = loop fstr (counter + 1) rest in
      r\<lparr>trace := [EvSendAll (encode (message fstr counter now)),
                   EvPrint (''Sent: '' @ message fstr counter now),
                   EvSleep 1] @ trace r\<rparr>)"

text \<open>
  The body of the \<^verbatim>\<open>with\<close> block: \<^verbatim>\<open>connect\<close>, the print, \<^verbatim>\<open>counter = 0\<close>, the loop.
  Before the assignment \<^verbatim>\<open>counter\<close> is unbound (\<open>None\<close>).
\<close>

definition body :: "('t \<Rightarrow> string) \<Rightarrow> 't env \<Rightarrow> int option run" where
  "body fstr e =
     (case connect_result e of
        ConnectFails \<Rightarrow>
          \<lparr>trace = [EvConnect HOST PORT], counter_val = None, status = Raised ConnectionError\<rparr>
      | ConnectInterrupted \<Rightarrow>
          \<lparr>trace = [EvConnect HOST PORT], counter_val = None, status = Raised KeyboardInterrupt\<rparr>
      | Connected \<Rightarrow>
          (let r = loop fstr 0 (ticks e) in
           \<lparr>trace = [EvConnect HOST PORT,
                      EvPrint (''Connected to '' @ HOST @ '':'' @ str_int PORT)] @ trace r,
            counter_val = Some (counter_val r), status = status r\<rparr>))"

text \<open>
  \<^verbatim>\<open>with socket.socket(...) as s:\<close> creates the socket, runs the body, and closes the
  socket when the body is left, which here is only ever through an exception.
\<close>

definition main :: "('t \<Rightarrow> string) \<Rightarrow> 't env \<Rightarrow> int option run" where
  "main fstr e =
     (let r = body fstr e in
      r\<lparr>trace := [EvSocket] @ trace r @ (if status r = Running then [] else [EvClose])\<rparr>)"

subsection \<open>Reading a trace\<close>

text \<open>The payloads of the writes that succeeded, and of all writes attempted.\<close>

fun sent :: "event list \<Rightarrow> byte list list" where
  "sent [] = []"
| "sent (EvSendAll p # es) = p # sent es"
| "sent (e # es) = sent es"

fun attempted :: "event list \<Rightarrow> byte list list" where
  "attempted [] = []"
| "attempted (EvSendAll p # es) = p # attempted es"
| "attempted (EvSendFailed p # es) = p # attempted es"
| "attempted (e # es) = attempted es"

fun connects :: "event list \<Rightarrow> (string \<times> int) list" where
  "connects [] = []"
| "connects (EvConnect h p # es) = (h, p) # connects es"
| "connects (e # es) = connects es"

text \<open>Whether the socket is held after a trace: created and not closed since.\<close>

fun sock_open :: "bool \<Rightarrow> event list \<Rightarrow> bool" where
  "sock_open b [] = b"
| "sock_open b (EvSocket # es) = sock_open True es"
| "sock_open b (EvClose # es) = sock_open False es"
| "sock_open b (e # es) = sock_open b es"

text \<open>
  The seconds of sleep between each successful write and the next one: a lower bound
  of the time between them, since \<^verbatim>\<open>time.sleep\<close> suspends for at least the time asked
  and no call takes negative time. The accumulator is \<open>None\<close> before the first write.
\<close>

fun slept_between :: "nat option \<Rightarrow> event list \<Rightarrow> nat list" where
  "slept_between acc [] = []"
| "slept_between acc (EvSendAll p # es) =
     (case acc of None \<Rightarrow> [] | Some s \<Rightarrow> [s]) @ slept_between (Some 0) es"
| "slept_between acc (EvSleep d # es) = slept_between (map_option (\<lambda>s. s + d) acc) es"
| "slept_between acc (e # es) = slept_between acc es"

definition gaps :: "event list \<Rightarrow> nat list" where
  "gaps tr = slept_between None tr"

subsection \<open>The receiver's view of a payload\<close>

definition ascii :: "string \<Rightarrow> byte list" where
  "ascii s = map of_char s"

definition is_digit :: "byte \<Rightarrow> bool" where
  "is_digit b = (48 \<le> b \<and> b \<le> 57)"

fun strip :: "byte list \<Rightarrow> byte list \<Rightarrow> byte list option" where
  "strip [] bs = Some bs"
| "strip (p # ps) [] = None"
| "strip (p # ps) (b # bs) = (if p = b then strip ps bs else None)"

definition parse_nat :: "byte list \<Rightarrow> nat" where
  "parse_nat ds = foldl (\<lambda>a b. 10 * a + (unat b - 48)) 0 ds"

text \<open>The sequence number a receiver reads off a payload: the digits after \<^verbatim>\<open>Hello \<close>.\<close>

definition seq_of :: "byte list \<Rightarrow> int option" where
  "seq_of p =
     (case strip (ascii ''Hello '') p of
        None \<Rightarrow> None
      | Some r \<Rightarrow>
          (let ds = takeWhile is_digit r in
           if ds = [] then None else Some (int (parse_nat ds))))"





text \<open>An iteration that runs all five statements of the loop body.\<close>

definition completes :: "('t \<times> outcome) \<Rightarrow> bool" where
  "completes tk = (snd tk = Completes)"

section \<open>Properties\<close>

subsection \<open>Encoding, digits and the receiver's parser\<close>

lemma encode_append: "encode (a @ b) = encode a @ encode b"
  by (simp add: encode_def)

lemma encode_Hello: "encode ''Hello '' = ascii ''Hello ''"
  by (simp add: encode_def utf8_char_def ascii_def)

lemma encode_at: "encode '' at '' = ascii '' at ''"
  by (simp add: encode_def utf8_char_def ascii_def)

lemma strip_append: "strip p (p @ r) = Some r"
  by (induction p) simp_all

lemma unat_digit: "d < 10 \<Longrightarrow> unat (48 + word_of_nat d :: byte) = 48 + d"
proof -
  assume d: "d < 10"
  have "(48 + word_of_nat d :: byte) = word_of_nat (48 + d)" by simp
  then have "unat (48 + word_of_nat d :: byte) = (48 + d) mod 256"
    by (simp only: unat_of_nat) simp
  with d show ?thesis by simp
qed

lemma utf8_digit_char: "d < 10 \<Longrightarrow> utf8_char (digit_char d) = [48 + word_of_nat d]"
  by (simp add: utf8_char_def digit_char_def)

lemma is_digit_of_nat: "d < 10 \<Longrightarrow> is_digit (48 + word_of_nat d)"
  unfolding is_digit_def
  by (simp add: word_le_nat_alt unat_digit)

lemma digits_all: "list_all is_digit (encode (digits10 n))"
proof (induction n rule: digits10.induct)
  case (1 n)
  show ?case
  proof (cases "n < 10")
    case True
    then show ?thesis
      by (subst digits10.simps) (simp add: encode_def utf8_digit_char is_digit_of_nat)
  next
    case False
    have "n mod 10 < 10" by simp
    with False 1 show ?thesis
      by (subst digits10.simps) (simp add: encode_append, simp add: encode_def utf8_digit_char is_digit_of_nat)
  qed
qed

lemma digits_nonempty: "encode (digits10 n) \<noteq> []"
  by (subst digits10.simps) (simp add: encode_def utf8_digit_char)

lemma parse_nat_snoc: "parse_nat (ds @ [b]) = 10 * parse_nat ds + (unat b - 48)"
  by (simp add: parse_nat_def)

lemma parse_digits: "parse_nat (encode (digits10 n)) = n"
proof (induction n rule: digits10.induct)
  case (1 n)
  show ?case
  proof (cases "n < 10")
    case True
    then show ?thesis
      by (subst digits10.simps) (simp add: encode_def utf8_digit_char parse_nat_def unat_digit)
  next
    case False
    have m: "n mod 10 < 10" by simp
    have "encode (digits10 n) = encode (digits10 (n div 10)) @ [48 + word_of_nat (n mod 10)]"
      using False m by (subst digits10.simps) (simp add: encode_append, simp add: encode_def utf8_digit_char)
    with False 1 m show ?thesis
      by (simp add: parse_nat_snoc unat_digit)
  qed
qed


lemma takeWhile_digits:
  "list_all is_digit ds \<Longrightarrow> \<not> is_digit b \<Longrightarrow> takeWhile is_digit (ds @ b # bs) = ds"
  by (induction ds) simp_all


lemma ascii_at: "ascii '' at '' = 32 # ascii ''at ''"
  by (simp add: ascii_def)

lemma space_not_digit: "\<not> is_digit 32"
  by (simp add: is_digit_def)

lemma encode_message:
  "0 \<le> k \<Longrightarrow>
   encode (message fstr k now) =
     ascii ''Hello '' @ encode (digits10 (nat k)) @ ascii '' at '' @ encode (fstr now)"
  by (simp only: message_def str_int_def encode_append encode_Hello encode_at) simp

lemma seq_of_message: "0 \<le> k \<Longrightarrow> seq_of (encode (message fstr k now)) = Some k"
  by (simp add: encode_message seq_of_def strip_append ascii_at takeWhile_digits
      digits_all space_not_digit digits_nonempty parse_digits)



subsection \<open>The rendering of a float\<close>













subsection \<open>The loop\<close>

lemma sent_append: "sent (xs @ ys) = sent xs @ sent ys"
  by (induction xs rule: sent.induct) simp_all

lemma attempted_append: "attempted (xs @ ys) = attempted xs @ attempted ys"
  by (induction xs rule: attempted.induct) simp_all

lemma connects_append: "connects (xs @ ys) = connects xs @ connects ys"
  by (induction xs rule: connects.induct) simp_all

lemma loop_sent_nth:
  "i < length (sent (trace (loop fstr c its))) \<Longrightarrow>
   i < length its \<and>
   sent (trace (loop fstr c its)) ! i = encode (message fstr (c + int i) (fst (its ! i)))"
proof (induction fstr c its arbitrary: i rule: loop.induct)
  case (8 fstr counter now rest)
  show ?case
  proof (cases i)
    case 0
    then show ?thesis by (simp add: Let_def)
  next
    case (Suc j)
    with 8 show ?thesis by (simp add: Let_def add.assoc)
  qed
qed simp_all


lemma loop_connects: "connects (trace (loop fstr c its)) = []"
  by (induction fstr c its rule: loop.induct) (simp_all add: Let_def)

lemma loop_sock_open: "sock_open b (trace (loop fstr c its)) = b"
  by (induction fstr c its rule: loop.induct) (simp_all add: Let_def)

lemma sock_open_close: "sock_open b (xs @ [EvClose]) = False"
  by (induction b xs rule: sock_open.induct) simp_all

lemma slept_between_close: "slept_between acc (xs @ [EvClose]) = slept_between acc xs"
  by (induction acc xs rule: slept_between.induct) simp_all

lemma loop_slept_Some:
  "slept_between (Some 1) (trace (loop fstr c its)) =
     replicate (length (sent (trace (loop fstr c its)))) 1"
  by (induction fstr c its rule: loop.induct) (simp_all add: Let_def)

lemma loop_slept_None:
  "slept_between None (trace (loop fstr c its)) =
     replicate (length (sent (trace (loop fstr c its))) - 1) 1"
proof (cases its)
  case Nil
  then show ?thesis by simp
next
  case (Cons tk rest)
  obtain now oc where tk: "tk = (now, oc)" by (cases tk)
  show ?thesis
  proof (cases oc)
    case Completes
    with Cons tk loop_slept_Some [of fstr "c + 1" rest] show ?thesis
      by (simp add: Let_def)
  next
    case SendFails
    with Cons tk show ?thesis by simp
  next
    case (Interrupted st)
    with Cons tk show ?thesis by (cases st) simp_all
  qed
qed

lemma loop_completes:
  "list_all completes its \<Longrightarrow>
   counter_val (loop fstr c its) = c + int (length its) \<and> status (loop fstr c its) = Running"
  by (induction fstr c its rule: loop.induct) (simp_all add: Let_def completes_def)

lemma loop_append:
  "list_all completes pre \<Longrightarrow>
   loop fstr c (pre @ rest) =
     (let r = loop fstr (c + int (length pre)) rest in
      r\<lparr>trace := trace (loop fstr c pre) @ trace r\<rparr>)"
  by (induction fstr c pre rule: loop.induct) (simp_all add: Let_def completes_def add.assoc)

lemma loop_counter_ge: "c \<le> counter_val (loop fstr c its)"
proof (induction fstr c its rule: loop.induct)
  case (8 fstr counter now rest)
  then show ?case by (simp add: Let_def)
qed simp_all

lemma loop_counter_mono:
  "counter_val (loop fstr c its) \<le> counter_val (loop fstr c (its @ later))"
proof (induction fstr c its rule: loop.induct)
  case (1 fstr counter)
  then show ?case by (simp add: loop_counter_ge)
next
  case (8 fstr counter now rest)
  then show ?case by (simp add: Let_def)
qed simp_all

lemma loop_full_trace:
  "list_all completes its \<Longrightarrow>
   trace (loop fstr (int n) its) =
     concat (map (\<lambda>(k, now).
                    [EvSendAll (encode (message fstr (int k) now)),
                     EvPrint (''Sent: '' @ message fstr (int k) now),
                     EvSleep 1])
                 (enumerate n (map fst its)))"
proof (induction its arbitrary: n)
  case Nil
  then show ?case by simp
next
  case (Cons tk its)
  obtain now oc where tk: "tk = (now, oc)" by (cases tk)
  from Cons.prems have "completes tk" and rest: "list_all completes its"
    by simp_all
  with tk have oc: "oc = Completes"
    by (simp add: completes_def)
  with Cons.IH [OF rest, of "Suc n"] tk show ?case
    by (simp add: Let_def add.commute)
qed

lemma loop_completes_counts:
  "list_all completes its \<Longrightarrow>
   length (sent (trace (loop fstr c its))) = length its \<and>
   length (attempted (trace (loop fstr c its))) = length its"
  by (induction fstr c its rule: loop.induct) (simp_all add: Let_def completes_def)

lemma loop_no_close: "[ev \<leftarrow> trace (loop fstr c its). ev = EvClose] = []"
  by (induction fstr c its rule: loop.induct) (simp_all add: Let_def)

subsection \<open>The script\<close>

lemma main_sent:
  "sent (trace (main fstr e)) =
     (if connect_result e = Connected then sent (trace (loop fstr 0 (ticks e))) else [])"
  by (cases "connect_result e") (simp_all add: main_def body_def Let_def sent_append)


lemma main_running:
  "connect_result e = Connected \<Longrightarrow> list_all completes (ticks e) \<Longrightarrow>
   main fstr e =
     \<lparr>trace = [EvSocket, EvConnect HOST PORT,
               EvPrint (''Connected to '' @ HOST @ '':'' @ str_int PORT)] @
              trace (loop fstr 0 (ticks e)),
      counter_val = Some (int (length (ticks e))), status = Running\<rparr>"
  using loop_completes [of "ticks e" fstr 0]
  by (simp add: main_def body_def Let_def)

lemma main_sent_nth:
  "i < length (sent (trace (main fstr e))) \<Longrightarrow>
   sent (trace (main fstr e)) ! i = encode (message fstr (int i) (map fst (ticks e) ! i))"
proof -
  assume i: "i < length (sent (trace (main fstr e)))"
  then have c: "connect_result e = Connected"
    by (simp add: main_sent split: if_splits)
  with i have "i < length (sent (trace (loop fstr 0 (ticks e))))"
    by (simp add: main_sent)
  then have "i < length (ticks e) \<and>
      sent (trace (loop fstr 0 (ticks e))) ! i = encode (message fstr (int i) (fst (ticks e ! i)))"
    using loop_sent_nth [of i fstr 0 "ticks e"] by simp
  with c show ?thesis
    by (simp add: main_sent)
qed

lemma same_clocks_prefix:
  assumes "map fst (ticks e1) = map fst (ticks e2)"
    and "length (sent (trace (main fstr e1))) \<le> length (sent (trace (main fstr e2)))"
  shows "prefix (sent (trace (main fstr e1))) (sent (trace (main fstr e2)))"
proof -
  have "sent (trace (main fstr e1)) =
        take (length (sent (trace (main fstr e1)))) (sent (trace (main fstr e2)))"
  proof (rule nth_equalityI)
    show "length (sent (trace (main fstr e1))) =
          length (take (length (sent (trace (main fstr e1)))) (sent (trace (main fstr e2))))"
      using assms(2) by simp
  next
    fix i
    assume i: "i < length (sent (trace (main fstr e1)))"
    with assms(2) have j: "i < length (sent (trace (main fstr e2)))" by simp
    from i j show "sent (trace (main fstr e1)) ! i =
          take (length (sent (trace (main fstr e1)))) (sent (trace (main fstr e2))) ! i"
      by (simp add: main_sent_nth assms(1))
  qed
  then show ?thesis
    by (metis take_is_prefix)
qed

section \<open>The claims\<close>

text \<open>
  C1. In every run, the sequence numbers a receiver reads off the payloads of the writes
  that succeeded are, in the order of the writes, exactly 0, 1, ..., N - 1, where N is
  the number of those writes: the counter starts at 0, goes up by one with each
  successful write, and is never reused or reset.
\<close>

theorem sequence_numbers_count_up:
  "map seq_of (sent (trace (main fstr e))) =
     map (\<lambda>k. Some (int k)) [0..<length (sent (trace (main fstr e)))]"
proof (rule nth_equalityI)
  show "length (map seq_of (sent (trace (main fstr e)))) =
        length (map (\<lambda>k. Some (int k)) [0..<length (sent (trace (main fstr e)))])"
    by simp
next
  fix i
  assume "i < length (map seq_of (sent (trace (main fstr e))))"
  then have i: "i < length (sent (trace (main fstr e)))" by simp
  then have c: "connect_result e = Connected"
    by (simp add: main_sent split: if_splits)
  with i have "i < length (sent (trace (loop fstr 0 (ticks e))))"
    by (simp add: main_sent)
  then have "sent (trace (loop fstr 0 (ticks e))) ! i =
             encode (message fstr (int i) (fst (ticks e ! i)))"
    using loop_sent_nth [of i fstr 0 "ticks e"] by simp
  with c have "seq_of (sent (trace (main fstr e)) ! i) = Some (int i)"
    by (simp add: main_sent seq_of_message)
  with i show "map seq_of (sent (trace (main fstr e))) ! i =
               map (\<lambda>k. Some (int k)) [0..<length (sent (trace (main fstr e)))] ! i"
    by simp
qed




text \<open>
  C3. If \<^verbatim>\<open>connect\<close> does not establish the connection, the script makes no write at
  all, never assigns the counter, and has left the \<^verbatim>\<open>with\<close> block: its only calls are the
  creation of the socket, the \<^verbatim>\<open>connect\<close> and the close. When \<^verbatim>\<open>connect\<close> fails, the
  exception that ends the script is the connection error.
\<close>

theorem connect_failure_sends_nothing:
  assumes "connect_result e \<noteq> Connected"
  shows "attempted (trace (main fstr e)) = [] \<and>
         counter_val (main fstr e) = None \<and>
         status (main fstr e) \<noteq> Running \<and>
         trace (main fstr e) = [EvSocket, EvConnect HOST PORT, EvClose] \<and>
         (connect_result e = ConnectFails \<longrightarrow> status (main fstr e) = Raised ConnectionError)"
  using assms
  by (cases "connect_result e") (simp_all add: main_def body_def Let_def)

text \<open>A refused connection, whatever the iterations that could have followed.\<close>

theorem connect_failure_sends_nothing_witness:
  "connect_result \<lparr>connect_result = ConnectFails, ticks = [(''1.5'', Completes)]\<rparr> \<noteq> Connected \<and>
   attempted (trace (main id \<lparr>connect_result = ConnectFails, ticks = [(''1.5'', Completes)]\<rparr>)) = [] \<and>
   status (main id \<lparr>connect_result = ConnectFails, ticks = [(''1.5'', Completes)]\<rparr>) =
     Raised ConnectionError"
proof -
  have h: "connect_result \<lparr>connect_result = ConnectFails, ticks = [(''1.5'', Completes)]\<rparr> \<noteq> Connected"
    by simp
  from connect_failure_sends_nothing [OF h, of id] h show ?thesis
    by simp
qed

text \<open>
  C4. If a write fails after some full iterations, the script ends with the write error
  and the socket is closed. The failing call is the last thing it does on the stream:
  its calls are those of the run up to that iteration, then the one failed \<^verbatim>\<open>sendall\<close>
  (a single attempt, never repeated), then the close. Whatever the environment would
  have done afterwards makes no difference, and the counter is left at the sequence
  number of the message that failed.
\<close>

theorem write_failure_is_fatal:
  assumes "connect_result e = Connected"
    and "ticks e = pre @ (now, SendFails) # post"
    and "list_all completes pre"
  shows "status (main fstr e) = Raised WriteError \<and>
         counter_val (main fstr e) = Some (int (length pre)) \<and>
         trace (main fstr e) =
           trace (main fstr (e\<lparr>ticks := pre\<rparr>)) @
           [EvSendFailed (encode (message fstr (int (length pre)) now)), EvClose] \<and>
         length (attempted (trace (main fstr e))) = length pre + 1 \<and>
         length (sent (trace (main fstr e))) = length pre \<and>
         main fstr e = main fstr (e\<lparr>ticks := pre @ [(now, SendFails)]\<rparr>)"
proof -
  have l: "\<And>rest. loop fstr 0 (pre @ (now, SendFails) # rest) =
      \<lparr>trace = trace (loop fstr 0 pre) @
                [EvSendFailed (encode (message fstr (int (length pre)) now))],
       counter_val = int (length pre), status = Raised WriteError\<rparr>"
    using assms(3) by (simp add: loop_append Let_def)
  have m: "\<And>rest. main fstr (e\<lparr>ticks := pre @ (now, SendFails) # rest\<rparr>) =
      \<lparr>trace = [EvSocket, EvConnect HOST PORT,
                EvPrint (''Connected to '' @ HOST @ '':'' @ str_int PORT)] @
               trace (loop fstr 0 pre) @
               [EvSendFailed (encode (message fstr (int (length pre)) now)), EvClose],
       counter_val = Some (int (length pre)), status = Raised WriteError\<rparr>"
    using assms(1) by (simp add: main_def body_def Let_def l)
  have e: "e = e\<lparr>ticks := pre @ (now, SendFails) # post\<rparr>"
    using assms(2) by simp
  have me: "main fstr e =
      \<lparr>trace = [EvSocket, EvConnect HOST PORT,
                EvPrint (''Connected to '' @ HOST @ '':'' @ str_int PORT)] @
               trace (loop fstr 0 pre) @
               [EvSendFailed (encode (message fstr (int (length pre)) now)), EvClose],
       counter_val = Some (int (length pre)), status = Raised WriteError\<rparr>"
    by (subst e) (rule m)
  have r: "main fstr (e\<lparr>ticks := pre\<rparr>) =
      \<lparr>trace = [EvSocket, EvConnect HOST PORT,
                EvPrint (''Connected to '' @ HOST @ '':'' @ str_int PORT)] @
               trace (loop fstr 0 pre),
       counter_val = Some (int (length pre)), status = Running\<rparr>"
    using assms(1,3) main_running [of "e\<lparr>ticks := pre\<rparr>" fstr] by simp
  have "status (main fstr e) = Raised WriteError"
    by (simp add: me)
  moreover have "counter_val (main fstr e) = Some (int (length pre))"
    by (simp add: me)
  moreover have "trace (main fstr e) =
           trace (main fstr (e\<lparr>ticks := pre\<rparr>)) @
           [EvSendFailed (encode (message fstr (int (length pre)) now)), EvClose]"
    by (simp add: me r)
  moreover have "length (attempted (trace (main fstr e))) = length pre + 1"
    using loop_completes_counts [OF assms(3), of fstr 0]
    by (simp add: me attempted_append)
  moreover have "length (sent (trace (main fstr e))) = length pre"
    using loop_completes_counts [OF assms(3), of fstr 0]
    by (simp add: me sent_append)
  moreover have "main fstr e = main fstr (e\<lparr>ticks := pre @ [(now, SendFails)]\<rparr>)"
    by (simp only: me m)
  ultimately show ?thesis by blast
qed

text \<open>
  One full iteration, then a write that fails, with a third iteration that never happens.
\<close>

theorem write_failure_is_fatal_witness:
  "connect_result \<lparr>connect_result = Connected,
      ticks = [(''1.5'', Completes), (''2.5'', SendFails), (''3.5'', Completes)]\<rparr> = Connected \<and>
   list_all completes [(''1.5'', Completes)] \<and>
   status (main id \<lparr>connect_result = Connected,
      ticks = [(''1.5'', Completes), (''2.5'', SendFails), (''3.5'', Completes)]\<rparr>) =
     Raised WriteError \<and>
   counter_val (main id \<lparr>connect_result = Connected,
      ticks = [(''1.5'', Completes), (''2.5'', SendFails), (''3.5'', Completes)]\<rparr>) = Some 1 \<and>
   length (attempted (trace (main id \<lparr>connect_result = Connected,
      ticks = [(''1.5'', Completes), (''2.5'', SendFails), (''3.5'', Completes)]\<rparr>))) = 2"
proof -
  let ?e = "\<lparr>connect_result = Connected,
      ticks = [(''1.5'', Completes), (''2.5'', SendFails), (''3.5'', Completes)]\<rparr>"
  have h1: "connect_result ?e = Connected" by simp
  have h2: "ticks ?e = [(''1.5'', Completes)] @ (''2.5'', SendFails) # [(''3.5'', Completes)]"
    by simp
  have h3: "list_all completes [(''1.5'', Completes)]"
    by (simp add: completes_def)
  note w = write_failure_is_fatal [OF h1 h2 h3, of id]
  from w have "status (main id ?e) = Raised WriteError"
    by blast
  moreover from w have "counter_val (main id ?e) = Some (int (length [(''1.5'', Completes)]))"
    by blast
  then have "counter_val (main id ?e) = Some 1"
    by simp
  moreover from w have "length (attempted (trace (main id ?e))) = length [(''1.5'', Completes)] + 1"
    by blast
  then have "length (attempted (trace (main id ?e))) = 2"
    by simp
  ultimately show ?thesis
    using h1 h3 by blast
qed

text \<open>
  C5. A full iteration is the write, the print, the increment and then one
  \<^verbatim>\<open>time.sleep(1)\<close>, in this order. In every run, between each successful write and the
  next one the script sleeps exactly once, for one second: the seconds slept between
  successive writes are 1 for each of the N - 1 gaps, so that no two successive writes
  are less than one second apart.
\<close>

theorem one_second_between_sends:
  "gaps (trace (main fstr e)) = replicate (length (sent (trace (main fstr e))) - 1) 1 \<and>
   trace (loop fstr c ((now, Completes) # rest)) =
     [EvSendAll (encode (message fstr c now)),
      EvPrint (''Sent: '' @ message fstr c now),
      EvSleep 1] @ trace (loop fstr (c + 1) rest)"
proof -
  have "gaps (trace (main fstr e)) = replicate (length (sent (trace (main fstr e))) - 1) 1"
  proof (cases "connect_result e")
    case Connected
    then show ?thesis
      using loop_slept_None [of fstr 0 "ticks e"]
      by (simp add: gaps_def main_def body_def Let_def sent_append slept_between_close)
  next
    case ConnectFails
    then show ?thesis by (simp add: gaps_def main_def body_def Let_def)
  next
    case ConnectInterrupted
    then show ?thesis by (simp add: gaps_def main_def body_def Let_def)
  qed
  then show ?thesis by (simp add: Let_def)
qed

text \<open>
  C6. Whenever the script has ended by an exception (a failed \<^verbatim>\<open>connect\<close>, a failed write,
  or an interrupt at any statement), the socket is not held any more: the close is the
  last call of the run and happens exactly once.
\<close>

theorem socket_closed_on_exit:
  assumes "status (main fstr e) = Raised err"
  shows "\<not> sock_open False (trace (main fstr e)) \<and>
         last (trace (main fstr e)) = EvClose \<and>
         [ev \<leftarrow> trace (main fstr e). ev = EvClose] = [EvClose]"
proof (cases "connect_result e")
  case Connected
  with assms have "status (loop fstr 0 (ticks e)) \<noteq> Running"
    by (simp add: main_def body_def Let_def)
  with Connected show ?thesis
    using sock_open_close [of True "EvConnect HOST PORT #
        EvPrint (''Connected to '' @ HOST @ '':'' @ str_int PORT) # trace (loop fstr 0 (ticks e))"]
    by (simp add: main_def body_def Let_def loop_no_close)
next
  case ConnectFails
  then show ?thesis by (simp add: main_def body_def Let_def)
next
  case ConnectInterrupted
  then show ?thesis by (simp add: main_def body_def Let_def)
qed

text \<open>
  An interrupt during the sleep of the second iteration.
\<close>

theorem socket_closed_on_exit_witness:
  "status (main id \<lparr>connect_result = Connected,
      ticks = [(''1.5'', Completes), (''2.5'', Interrupted AtSleep)]\<rparr>) =
     Raised KeyboardInterrupt \<and>
   \<not> sock_open False (trace (main id \<lparr>connect_result = Connected,
      ticks = [(''1.5'', Completes), (''2.5'', Interrupted AtSleep)]\<rparr>)) \<and>
   last (trace (main id \<lparr>connect_result = Connected,
      ticks = [(''1.5'', Completes), (''2.5'', Interrupted AtSleep)]\<rparr>)) = EvClose"
proof -
  let ?e = "\<lparr>connect_result = Connected,
      ticks = [(''1.5'', Completes), (''2.5'', Interrupted AtSleep)]\<rparr>"
  have h: "status (main id ?e) = Raised KeyboardInterrupt"
    by (simp add: main_def body_def Let_def)
  from socket_closed_on_exit [OF h] h show ?thesis
    by blast
qed

text \<open>
  C7. The two module constants are \<^verbatim>\<open>HOST = '127.0.0.1'\<close> and \<^verbatim>\<open>PORT = 6000\<close>. Every run
  calls \<^verbatim>\<open>connect\<close> exactly once, with this pair, as its first call on the new socket;
  the loop never calls it.
\<close>

theorem connects_once_to_host_port:
  "HOST = ''127.0.0.1'' \<and> PORT = 6000 \<and>
   connects (trace (main fstr e)) = [(HOST, PORT)] \<and>
   take 2 (trace (main fstr e)) = [EvSocket, EvConnect HOST PORT] \<and>
   connects (trace (loop fstr c its)) = []"
proof -
  have "connects (trace (main fstr e)) = [(HOST, PORT)]"
    by (cases "connect_result e")
      (simp_all add: main_def body_def Let_def connects_append loop_connects)
  moreover have "take 2 (trace (main fstr e)) = [EvSocket, EvConnect HOST PORT]"
    by (cases "connect_result e") (simp_all add: main_def body_def Let_def numeral_2_eq_2)
  ultimately show ?thesis
    by (simp add: loop_connects) (simp add: HOST_def PORT_def)
qed

text \<open>
  C8. The counter is an unbounded integer. After n full iterations it is exactly n, for
  every n; the message built next carries exactly that number, which a receiver reads
  back without loss; and letting the run go on never lowers the counter.
\<close>

theorem counter_exact_and_unbounded:
  assumes "connect_result e = Connected" and "list_all completes (ticks e)"
  shows "counter_val (main fstr e) = Some (int (length (ticks e))) \<and>
         seq_of (encode (message fstr (int (length (ticks e))) now)) =
           Some (int (length (ticks e))) \<and>
         counter_val (loop fstr 0 (ticks e)) \<le> counter_val (loop fstr 0 (ticks e @ later))"
  using assms
  by (simp add: main_running seq_of_message loop_counter_mono)

text \<open>
  Three full iterations.
\<close>

theorem counter_exact_and_unbounded_witness:
  "list_all completes [(''1.5'', Completes), (''2.5'', Completes), (''3.5'', Completes)] \<and>
   counter_val (main id \<lparr>connect_result = Connected,
      ticks = [(''1.5'', Completes), (''2.5'', Completes), (''3.5'', Completes)]\<rparr>) = Some 3"
proof -
  let ?e = "\<lparr>connect_result = Connected,
      ticks = [(''1.5'', Completes), (''2.5'', Completes), (''3.5'', Completes)]\<rparr>"
  have h1: "connect_result ?e = Connected" by simp
  have h2: "list_all completes (ticks ?e)" by (simp add: completes_def)
  from counter_exact_and_unbounded [OF h1 h2, of id]
  have "counter_val (main id ?e) = Some (int (length (ticks ?e)))"
    by blast
  then have "counter_val (main id ?e) = Some 3"
    by simp
  with h2 show ?thesis
    by simp
qed

text \<open>
  C9. After k full iterations the calls of the script are: the socket, the \<^verbatim>\<open>connect\<close>,
  the print of the connection, and then for each k' below k the write of message k', its
  print and one sleep. So the write of message 0 directly follows the start-up, each
  sleep comes after its write, and k messages have been written and k sleeps done.
\<close>

theorem first_send_without_delay:
  assumes "connect_result e = Connected" and "list_all completes (ticks e)"
  shows "trace (main fstr e) =
           [EvSocket, EvConnect HOST PORT,
            EvPrint (''Connected to '' @ HOST @ '':'' @ str_int PORT)] @
           concat (map (\<lambda>(k, now).
                          [EvSendAll (encode (message fstr (int k) now)),
                           EvPrint (''Sent: '' @ message fstr (int k) now),
                           EvSleep 1])
                       (enumerate 0 (map fst (ticks e)))) \<and>
         length (sent (trace (main fstr e))) = length (ticks e) \<and>
         length [ev \<leftarrow> trace (main fstr e). ev = EvSleep 1] = length (ticks e)"
proof -
  have s: "length [ev \<leftarrow> trace (loop fstr c its). ev = EvSleep 1] = length its"
    if "list_all completes its" for c its
    using that by (induction fstr c its rule: loop.induct) (simp_all add: Let_def completes_def)
  have "trace (loop fstr (int 0) (ticks e)) =
          concat (map (\<lambda>(k, now).
                          [EvSendAll (encode (message fstr (int k) now)),
                           EvPrint (''Sent: '' @ message fstr (int k) now),
                           EvSleep 1])
                       (enumerate 0 (map fst (ticks e))))"
    using assms(2) by (rule loop_full_trace)
  then show ?thesis
    using assms loop_completes_counts [OF assms(2), of fstr 0] s [OF assms(2), of 0]
    by (simp add: main_running sent_append)
qed

text \<open>
  Two full iterations.
\<close>

theorem first_send_without_delay_witness:
  "list_all completes [(''1.5'', Completes), (''2.5'', Completes)] \<and>
   trace (main id \<lparr>connect_result = Connected,
      ticks = [(''1.5'', Completes), (''2.5'', Completes)]\<rparr>) =
     [EvSocket, EvConnect ''127.0.0.1'' 6000, EvPrint ''Connected to 127.0.0.1:6000'',
      EvSendAll (encode ''Hello 0 at 1.5''), EvPrint ''Sent: Hello 0 at 1.5'', EvSleep 1,
      EvSendAll (encode ''Hello 1 at 2.5''), EvPrint ''Sent: Hello 1 at 2.5'', EvSleep 1]"
proof -
  let ?e = "\<lparr>connect_result = Connected,
      ticks = [(''1.5'', Completes), (''2.5'', Completes)]\<rparr>"
  have h1: "connect_result ?e = Connected" by simp
  have h2: "list_all completes (ticks ?e)" by (simp add: completes_def)
  have d: "str_int 0 = ''0''" "str_int 1 = ''1''" "str_int 6000 = ''6000''"
    by (simp_all add: str_int_def digits10.simps digit_char_def char_of_def bit_Suc_0_iff)
  from first_send_without_delay [OF h1 h2, of id]
  have "trace (main id ?e) =
           [EvSocket, EvConnect HOST PORT,
            EvPrint (''Connected to '' @ HOST @ '':'' @ str_int PORT)] @
           concat (map (\<lambda>(k, now).
                          [EvSendAll (encode (message id (int k) now)),
                           EvPrint (''Sent: '' @ message id (int k) now),
                           EvSleep 1])
                       (enumerate 0 (map fst (ticks ?e))))"
    by blast
  then have "trace (main id ?e) =
     [EvSocket, EvConnect ''127.0.0.1'' 6000, EvPrint ''Connected to 127.0.0.1:6000'',
      EvSendAll (encode ''Hello 0 at 1.5''), EvPrint ''Sent: Hello 0 at 1.5'', EvSleep 1,
      EvSendAll (encode ''Hello 1 at 2.5''), EvPrint ''Sent: Hello 1 at 2.5'', EvSleep 1]"
    by (simp add: message_def HOST_def PORT_def d)
  with h2 show ?thesis
    by simp
qed

text \<open>
  C10, as stated, fails: two runs that read the same clock values, one interrupted
  between building its second message and writing it, the other not, write different
  lists of payloads.
\<close>

theorem same_clocks_same_payloads_counterexample:
  "map fst (ticks \<lparr>connect_result = Connected,
      ticks = [(''1.5'', Completes), (''2.5'', Completes)]\<rparr>) =
   map fst (ticks \<lparr>connect_result = Connected,
      ticks = [(''1.5'', Completes), (''2.5'', Interrupted AtSendAll)]\<rparr>) \<and>
   sent (trace (main id \<lparr>connect_result = Connected,
      ticks = [(''1.5'', Completes), (''2.5'', Completes)]\<rparr>)) \<noteq>
   sent (trace (main id \<lparr>connect_result = Connected,
      ticks = [(''1.5'', Completes), (''2.5'', Interrupted AtSendAll)]\<rparr>))"
  by (simp add: main_def body_def Let_def)

text \<open>
  C10, amended. Of two runs that read the same clock values, the payloads written by
  one are a prefix of the payloads written by the other, and the two runs write the
  same payloads when they write equally many.
\<close>

theorem same_clocks_payloads_prefix:
  assumes "map fst (ticks e1) = map fst (ticks e2)"
  shows "(prefix (sent (trace (main fstr e1))) (sent (trace (main fstr e2))) \<or>
          prefix (sent (trace (main fstr e2))) (sent (trace (main fstr e1)))) \<and>
         (length (sent (trace (main fstr e1))) = length (sent (trace (main fstr e2))) \<longrightarrow>
          sent (trace (main fstr e1)) = sent (trace (main fstr e2)))"
proof -
  have a: "prefix (sent (trace (main fstr e1))) (sent (trace (main fstr e2))) \<or>
          prefix (sent (trace (main fstr e2))) (sent (trace (main fstr e1)))"
  proof (cases "length (sent (trace (main fstr e1))) \<le> length (sent (trace (main fstr e2)))")
    case True
    with assms show ?thesis by (simp add: same_clocks_prefix)
  next
    case False
    then have "length (sent (trace (main fstr e2))) \<le> length (sent (trace (main fstr e1)))"
      by simp
    with assms [symmetric] show ?thesis by (simp add: same_clocks_prefix)
  qed
  have "sent (trace (main fstr e1)) = sent (trace (main fstr e2))"
    if "length (sent (trace (main fstr e1))) = length (sent (trace (main fstr e2)))"
    using a that by (auto simp: prefix_def)
  with a show ?thesis by blast
qed

text \<open>
  The two runs of the counterexample: the interrupted one writes a prefix of the other.
\<close>

theorem same_clocks_payloads_prefix_witness:
  "map fst (ticks \<lparr>connect_result = Connected,
      ticks = [(''1.5'', Completes), (''2.5'', Completes)]\<rparr>) =
   map fst (ticks \<lparr>connect_result = Connected,
      ticks = [(''1.5'', Completes), (''2.5'', Interrupted AtSendAll)]\<rparr>) \<and>
   prefix
     (sent (trace (main id \<lparr>connect_result = Connected,
        ticks = [(''1.5'', Completes), (''2.5'', Interrupted AtSendAll)]\<rparr>)))
     (sent (trace (main id \<lparr>connect_result = Connected,
        ticks = [(''1.5'', Completes), (''2.5'', Completes)]\<rparr>)))"
proof -
  let ?a = "\<lparr>connect_result = Connected,
      ticks = [(''1.5'', Completes), (''2.5'', Completes)]\<rparr>"
  let ?b = "\<lparr>connect_result = Connected,
      ticks = [(''1.5'', Completes), (''2.5'', Interrupted AtSendAll)]\<rparr>"
  have h: "map fst (ticks ?a) = map fst (ticks ?b)" by simp
  have n: "\<not> prefix (sent (trace (main id ?a))) (sent (trace (main id ?b)))"
    by (simp add: main_def body_def Let_def)
  from same_clocks_payloads_prefix [OF h, of id] n h show ?thesis
    by blast
qed

end
